theory Spec2Isabelle
  imports Main "HOL-Library.Finite_Map"
begin

section \<open>Strings\<close>

text \<open>
  Python strings are modelled as HOL strings restricted to ASCII: \<open>str.lower\<close>
  maps \<open>A..Z\<close> to \<open>a..z\<close> (it sets bit 5 of the code), \<open>str.isalnum\<close> holds of
  digits and letters, and \<open>str.strip\<close> removes leading and trailing white space
  (codes 9 to 13 and 28 to 32). Codes above 127 are left alone by \<open>lower\<close> and are
  neither alphanumeric nor white space.
\<close>

definition isupper :: "char \<Rightarrow> bool" where
  "isupper c = (let n = (of_char c :: nat) in 65 \<le> n \<and> n \<le> 90)"

fun lower_char :: "char \<Rightarrow> char" where
  "lower_char (Char b0 b1 b2 b3 b4 b5 b6 b7) =
     (if isupper (Char b0 b1 b2 b3 b4 b5 b6 b7) then Char b0 b1 b2 b3 b4 True b6 b7
      else Char b0 b1 b2 b3 b4 b5 b6 b7)"

definition lower :: "string \<Rightarrow> string" where
  "lower s = map lower_char s"

definition isalnum :: "char \<Rightarrow> bool" where
  "isalnum c =
     (let n = (of_char c :: nat)
      in (48 \<le> n \<and> n \<le> 57) \<or> (65 \<le> n \<and> n \<le> 90) \<or> (97 \<le> n \<and> n \<le> 122))"

definition isspace :: "char \<Rightarrow> bool" where
  "isspace c = (let n = (of_char c :: nat) in (9 \<le> n \<and> n \<le> 13) \<or> (28 \<le> n \<and> n \<le> 32))"

definition strip :: "string \<Rightarrow> string" where
  "strip s = rev (dropWhile isspace (rev (dropWhile isspace s)))"

text \<open>\<open>"".join(c for c in s if c.isalnum())\<close>\<close>

definition alnum_only :: "string \<Rightarrow> string" where
  "alnum_only s = filter isalnum s"

text \<open>The substring test \<open>a in b\<close> of two Python strings.\<close>

fun startswith :: "string \<Rightarrow> string \<Rightarrow> bool" where
  "startswith s [] = True"
| "startswith [] (p # ps) = False"
| "startswith (c # cs) (p # ps) = (c = p \<and> startswith cs ps)"

fun str_in :: "string \<Rightarrow> string \<Rightarrow> bool" where
  "str_in a [] = (a = [])"
| "str_in a (c # cs) = (startswith (c # cs) a \<or> str_in a cs)"

section \<open>The similarity ratio of difflib\<close>

text \<open>
  \<open>SequenceMatcher(None, a, b).ratio()\<close> belongs to Python's standard library, not
  to the repository. The match engine below takes the ratio as a parameter, so that
  its theorems hold of every similarity function. For closed evaluations the ratio
  is instantiated with \<open>SequenceMatcher_ratio\<close>, which follows difflib's documented
  algorithm: the longest matching block (longest first, then earliest in \<open>a\<close>, then
  earliest in \<open>b\<close>) is found, the pieces to its left and to its right are matched
  recursively, and the ratio is \<open>2 * M / T\<close> for \<open>M\<close> matched characters out of
  \<open>T\<close> in both strings, and \<open>1\<close> when both are empty. difflib's automatic junk
  heuristic, which only acts on a second string of 200 characters or more, is not
  part of this model.
\<close>

type_synonym ratio_fn = "string \<Rightarrow> string \<Rightarrow> rat"

fun common_prefix_len :: "string \<Rightarrow> string \<Rightarrow> nat" where
  "common_prefix_len (x # xs) (y # ys) = (if x = y then Suc (common_prefix_len xs ys) else 0)"
| "common_prefix_len [] ys = 0"
| "common_prefix_len xs [] = 0"

definition better_block :: "string \<Rightarrow> string \<Rightarrow> nat \<times> nat \<times> nat \<Rightarrow> nat \<times> nat \<Rightarrow> nat \<times> nat \<times> nat" where
  "better_block a b best ij =
     (let k = common_prefix_len (drop (fst ij) a) (drop (snd ij) b)
      in if snd (snd best) < k then (fst ij, snd ij, k) else best)"

definition find_longest_match :: "string \<Rightarrow> string \<Rightarrow> nat \<times> nat \<times> nat" where
  "find_longest_match a b =
     foldl (better_block a b) (0, 0, 0) (List.product [0..<length a] [0..<length b])"

text \<open>A block found by \<open>find_longest_match\<close> lies inside both strings.\<close>

definition block_ok :: "string \<Rightarrow> string \<Rightarrow> nat \<times> nat \<times> nat \<Rightarrow> bool" where
  "block_ok a b blk =
     (fst blk + snd (snd blk) \<le> length a \<and> fst (snd blk) + snd (snd blk) \<le> length b)"

lemma common_prefix_len_le1: "common_prefix_len xs ys \<le> length xs"
  by (induction xs ys rule: common_prefix_len.induct) auto

lemma common_prefix_len_le2: "common_prefix_len xs ys \<le> length ys"
  by (induction xs ys rule: common_prefix_len.induct) auto

lemma better_block_ok: "block_ok a b best \<Longrightarrow> block_ok a b (better_block a b best ij)"
  using common_prefix_len_le1 [of "drop (fst ij) a" "drop (snd ij) b"]
        common_prefix_len_le2 [of "drop (fst ij) a" "drop (snd ij) b"]
  by (auto simp: block_ok_def better_block_def Let_def)

lemma foldl_better_block_ok:
  "block_ok a b best \<Longrightarrow> block_ok a b (foldl (better_block a b) best ijs)"
  by (induction ijs arbitrary: best) (auto simp: better_block_ok)

lemma find_longest_match_ok: "block_ok a b (find_longest_match a b)"
  unfolding find_longest_match_def
  by (rule foldl_better_block_ok) (simp add: block_ok_def)

lemma find_longest_match_bounds:
  assumes "find_longest_match a b = (i, j, k)"
  shows "i + k \<le> length a" and "j + k \<le> length b"
  using find_longest_match_ok [of a b] assms by (simp_all add: block_ok_def)

lemma find_longest_match_start:
  "(i, j, k) = find_longest_match a b \<Longrightarrow> k \<noteq> 0 \<Longrightarrow> i < length a"
  using find_longest_match_bounds(1) [of a b i j k] by simp

function matching_size :: "string \<Rightarrow> string \<Rightarrow> nat" where
  "matching_size a b =
     (case find_longest_match a b of
        (i, j, k) \<Rightarrow>
          if k = 0 then 0
          else matching_size (take i a) (take j b) + k
               + matching_size (drop (i + k) a) (drop (j + k) b))"
  by pat_completeness auto
termination
  apply (relation "measure (\<lambda>(a, b). length a)")
    apply simp
   apply (auto dest: find_longest_match_start)
  done

declare matching_size.simps [simp del]

definition SequenceMatcher_ratio :: ratio_fn where
  "SequenceMatcher_ratio a b =
     (let total = length a + length b
      in if total = 0 then 1 else 2 * of_nat (matching_size a b) / of_nat total)"

lemma matching_size_le: "matching_size a b \<le> length a \<and> matching_size a b \<le> length b"
proof (induction a b rule: matching_size.induct)
  case (1 a b)
  obtain i j k where f: "find_longest_match a b = (i, j, k)"
    by (cases "find_longest_match a b") auto
  show ?case
  proof (cases "k = 0")
    case True
    with f show ?thesis by (simp add: matching_size.simps [of a b])
  next
    case False
    from "1.IH"(1) [OF f [symmetric] refl False]
    have l: "matching_size (take i a) (take j b) \<le> length (take i a)"
            "matching_size (take i a) (take j b) \<le> length (take j b)" by simp_all
    from "1.IH"(2) [OF f [symmetric] refl False]
    have r: "matching_size (drop (i + k) a) (drop (j + k) b) \<le> length (drop (i + k) a)"
            "matching_size (drop (i + k) a) (drop (j + k) b) \<le> length (drop (j + k) b)"
      by simp_all
    have "matching_size a b = matching_size (take i a) (take j b) + k
               + matching_size (drop (i + k) a) (drop (j + k) b)"
      using f False by (simp add: matching_size.simps [of a b])
    with find_longest_match_bounds [OF f] l r show ?thesis by auto
  qed
qed

lemma SequenceMatcher_ratio_le_1: "SequenceMatcher_ratio a b \<le> 1"
proof -
  have "2 * matching_size a b \<le> length a + length b"
    using matching_size_le [of a b] by simp
  then have "2 * (of_nat (matching_size a b) :: rat) \<le> of_nat (length a + length b)"
    by (metis of_nat_le_iff of_nat_mult of_nat_numeral)
  then show ?thesis
    by (simp add: SequenceMatcher_ratio_def Let_def divide_le_eq)
qed

section \<open>Data model\<close>

text \<open>
  \<open>GAProperty\<close> (ga_client.py) and \<open>PropertyMatch\<close> (property_resolver.py). The field
  \<open>id\<close> is named \<open>prop_id\<close> here. \<open>matched_on\<close> is a string in the source; the
  tags the resolver writes form the datatype \<open>match_stage\<close>. Confidences are Python
  floats, modelled as exact rationals.
\<close>

record GAProperty =
  prop_id :: string
  name :: string
  display_name :: string
  account_id :: string
  website_url :: "string option"

datatype match_stage =
  ExactId | ExactName | DisplayName | Alias | FuzzyName | FuzzyDisplay | Partial | Exact | Fuzzy

record PropertyMatch =
  property :: GAProperty
  confidence :: rat
  matched_on :: match_stage

datatype py_error = ZeroDivisionError | GAClientError | ConfigError

text \<open>\<open>custom_aliases\<close>: a dict from property name to its aliases, in iteration order.\<close>

type_synonym alias_table = "(string \<times> string list) list"

section \<open>PropertyResolver.resolve: the matching stages\<close>

text \<open>
  Stage 4, lines 116 to 123: for each entry of the alias table whose lower-cased
  aliases contain \<open>query_lower\<close>, the first property whose name equals the entry's
  key, or whose lower-cased display name equals the lower-cased key, is returned;
  an entry with no such property is passed over.
\<close>

definition alias_owner :: "string \<Rightarrow> GAProperty \<Rightarrow> bool" where
  "alias_owner prop_name prop =
     (name prop = prop_name \<or> lower (display_name prop) = lower prop_name)"

fun alias_stage :: "alias_table \<Rightarrow> GAProperty list \<Rightarrow> string \<Rightarrow> GAProperty option" where
  "alias_stage [] props query_lower = None"
| "alias_stage ((prop_name, aliases) # rest) props query_lower =
     (if query_lower \<in> set (map lower aliases)
      then (case find (alias_owner prop_name) props of
              Some prop \<Rightarrow> Some prop
            | None \<Rightarrow> alias_stage rest props query_lower)
      else alias_stage rest props query_lower)"

text \<open>
  Stage 5, lines 126 to 150: one pass of the loop body over a property, with
  \<open>best_match\<close> threaded through. The division of line 146 raises
  \<open>ZeroDivisionError\<close> when both lengths are zero.
\<close>

type_synonym best_match = "(GAProperty \<times> rat \<times> match_stage) option"

definition improves :: "rat \<Rightarrow> best_match \<Rightarrow> bool" where
  "improves score best = (case best of None \<Rightarrow> True | Some (p, s, t) \<Rightarrow> s < score)"

text \<open>\<open>display_clean\<close>, lines 136 to 138 and 194 to 196.\<close>

definition display_clean :: "GAProperty \<Rightarrow> string" where
  "display_clean prop = alnum_only (lower (display_name prop))"

text \<open>The test of lines 145 and 202.\<close>

definition contains_query :: "string \<Rightarrow> GAProperty \<Rightarrow> bool" where
  "contains_query query_clean prop =
     (str_in query_clean (name prop) \<or> str_in query_clean (display_clean prop))"

text \<open>
  Lines 145 to 148: the candidate of the partial branch, if any. It exists when the
  query is contained and \<open>partial_score\<close> exceeds \<open>0.3\<close>; its value is the
  \<open>effective_score\<close>.
\<close>

definition partial_candidate :: "string \<Rightarrow> GAProperty \<Rightarrow> py_error + rat option" where
  "partial_candidate query_clean prop =
     (if contains_query query_clean prop
      then (if max (length (name prop)) (length (display_clean prop)) = 0
            then Inl ZeroDivisionError
            else (let partial_score =
                        of_nat (length query_clean)
                        / of_nat (max (length (name prop)) (length (display_clean prop)))
                  in if 3 / 10 < partial_score
                     then Inr (Some (7 / 10 + partial_score * (3 / 10)))
                     else Inr None))
      else Inr None)"

definition fuzzy_body :: "ratio_fn \<Rightarrow> rat \<Rightarrow> string \<Rightarrow> best_match \<Rightarrow> GAProperty \<Rightarrow> py_error + best_match" where
  "fuzzy_body ratio fuzzy_threshold query_clean best0 prop =
     (let name_score = ratio query_clean (name prop);
          best1 = (if fuzzy_threshold < name_score \<and> improves name_score best0
                   then Some (prop, name_score, FuzzyName) else best0);
          display_score = ratio query_clean (display_clean prop);
          best2 = (if fuzzy_threshold < display_score \<and> improves display_score best1
                   then Some (prop, display_score, FuzzyDisplay) else best1)
      in case partial_candidate query_clean prop of
           Inl e \<Rightarrow> Inl e
         | Inr None \<Rightarrow> Inr best2
         | Inr (Some effective_score) \<Rightarrow>
             if improves effective_score best2
             then Inr (Some (prop, effective_score, Partial))
             else Inr best2)"

fun fuzzy_stage :: "ratio_fn \<Rightarrow> rat \<Rightarrow> string \<Rightarrow> best_match \<Rightarrow> GAProperty list \<Rightarrow> py_error + best_match" where
  "fuzzy_stage ratio fuzzy_threshold query_clean best [] = Inr best"
| "fuzzy_stage ratio fuzzy_threshold query_clean best (prop # props) =
     (case fuzzy_body ratio fuzzy_threshold query_clean best prop of
        Inl e \<Rightarrow> Inl e
      | Inr best' \<Rightarrow> fuzzy_stage ratio fuzzy_threshold query_clean best' props)"

definition found :: "GAProperty \<Rightarrow> rat \<Rightarrow> match_stage \<Rightarrow> py_error + PropertyMatch option" where
  "found prop c stage = Inr (Some \<lparr>property = prop, confidence = c, matched_on = stage\<rparr>)"

text \<open>
  Lines 88 to 159 of \<open>resolve\<close>, over the loaded property list: the result is
  \<open>Inr None\<close> for Python's \<open>None\<close>, \<open>Inr (Some m)\<close> for a match and \<open>Inl e\<close> for
  an exception raised by the matching.
\<close>

definition resolve_in :: "ratio_fn \<Rightarrow> rat \<Rightarrow> alias_table \<Rightarrow> GAProperty list \<Rightarrow> string \<Rightarrow> py_error + PropertyMatch option" where
  "resolve_in ratio fuzzy_threshold custom_aliases props query =
     (if props = [] then Inr None
      else
        (let query_lower = strip (lower query);
             query_clean = alnum_only query_lower
         in case find (\<lambda>prop. prop_id prop = query) props of
              Some prop \<Rightarrow> found prop 1 ExactId
            | None \<Rightarrow>
         (case find (\<lambda>prop. name prop = query_clean) props of
              Some prop \<Rightarrow> found prop 1 ExactName
            | None \<Rightarrow>
         (case find (\<lambda>prop. lower (display_name prop) = query_lower) props of
              Some prop \<Rightarrow> found prop 1 DisplayName
            | None \<Rightarrow>
         (case alias_stage custom_aliases props query_lower of
              Some prop \<Rightarrow> found prop 1 Alias
            | None \<Rightarrow>
         (case fuzzy_stage ratio fuzzy_threshold query_clean None props of
              Inl e \<Rightarrow> Inl e
            | Inr None \<Rightarrow> Inr None
            | Inr (Some (prop, score, stage)) \<Rightarrow> found prop score stage))))))"

section \<open>PropertyResolver.search\<close>

text \<open>
  Lines 184 to 213: the loop body yields the match appended for a property, if any.
  The divisor of line 203 is \<open>max(len(prop.name), len(display_clean), 1)\<close>.
\<close>

definition best_score :: "ratio_fn \<Rightarrow> string \<Rightarrow> GAProperty \<Rightarrow> rat" where
  "best_score ratio query_clean prop =
     (let name_score = ratio query_clean (name prop);
          display_score = ratio query_clean (display_clean prop);
          best = max name_score display_score
      in if contains_query query_clean prop
         then max best
                (7 / 10 + (of_nat (length query_clean)
                   / of_nat (max (max (length (name prop)) (length (display_clean prop))) 1))
                   * (3 / 10))
         else best)"

definition search_body :: "ratio_fn \<Rightarrow> string \<Rightarrow> string \<Rightarrow> GAProperty \<Rightarrow> PropertyMatch option" where
  "search_body ratio query query_clean prop =
     (if prop_id prop = query \<or> name prop = query_clean
      then Some \<lparr>property = prop, confidence = 1, matched_on = Exact\<rparr>
      else
        (let score = best_score ratio query_clean prop
         in if 3 / 10 < score
            then Some \<lparr>property = prop, confidence = score,
                        matched_on = (if score < 1 then Fuzzy else Exact)\<rparr>
            else None))"

text \<open>
  \<open>matches.sort(key=lambda m: m.confidence, reverse=True)\<close>: Python's sort is stable,
  also with \<open>reverse=True\<close>, so it is the stable insertion sort on the negated key.
  \<open>matches[:max_results]\<close> is Python's slice, which for a negative bound drops that
  many elements from the end.
\<close>

definition sort_by_confidence :: "PropertyMatch list \<Rightarrow> PropertyMatch list" where
  "sort_by_confidence matches = sort_key (\<lambda>m. - confidence m) matches"

definition slice_to :: "'a list \<Rightarrow> int \<Rightarrow> 'a list" where
  "slice_to xs n = (if 0 \<le> n then take (nat n) xs else take (length xs - nat (- n)) xs)"

definition search_matches :: "ratio_fn \<Rightarrow> GAProperty list \<Rightarrow> string \<Rightarrow> PropertyMatch list" where
  "search_matches ratio props query =
     (let query_lower = strip (lower query);
          query_clean = alnum_only query_lower
      in List.map_filter (search_body ratio query query_clean) props)"

definition search_in :: "ratio_fn \<Rightarrow> GAProperty list \<Rightarrow> string \<Rightarrow> int \<Rightarrow> PropertyMatch list" where
  "search_in ratio props query max_results =
     (if props = [] then []
      else slice_to (sort_by_confidence (search_matches ratio props query)) max_results)"

section \<open>The cache of GAClient\<close>

text \<open>
  \<open>CacheEntry\<close>, \<open>_get_cached\<close> and \<open>_set_cached\<close> (ga_client.py, lines 35 to 43 and
  131 to 143). The dict \<open>_cache\<close> is a finite map. The clock
  \<open>datetime.now().timestamp()\<close> is read by each call and passed as \<open>now\<close>.
\<close>

record 'v CacheEntry =
  data :: 'v
  expires_at :: rat

type_synonym 'v cache = "(string, 'v CacheEntry) fmap"

definition is_valid :: "rat \<Rightarrow> 'v CacheEntry \<Rightarrow> bool" where
  "is_valid now entry = (now < expires_at entry)"

definition get_cached :: "rat \<Rightarrow> 'v cache \<Rightarrow> string \<Rightarrow> 'v option \<times> 'v cache" where
  "get_cached now c key =
     (case fmlookup c key of
        Some entry \<Rightarrow> if is_valid now entry then (Some (data entry), c) else (None, fmdrop key c)
      | None \<Rightarrow> (None, c))"

text \<open>\<open>ttl = ttl or self.cache_ttl\<close>: an absent or zero \<open>ttl\<close> falls back to the default.\<close>

definition set_cached :: "rat \<Rightarrow> int \<Rightarrow> 'v cache \<Rightarrow> string \<Rightarrow> 'v \<Rightarrow> int option \<Rightarrow> 'v cache" where
  "set_cached now default_ttl c key v ttl =
     (let ttl' = (case ttl of Some t \<Rightarrow> if t \<noteq> 0 then t else default_ttl | None \<Rightarrow> default_ttl)
      in fmupd key \<lparr>data = v, expires_at = now + of_int ttl'\<rparr> c)"

definition total_entries :: "'v cache \<Rightarrow> nat" where
  "total_entries c = fcard (fmdom c)"

section \<open>GAClient.discover_properties\<close>

text \<open>
  The state of the client that the resolver touches: the two TTLs and the cache
  (here of property lists, the values stored under the key \<open>properties\<close>). The
  outcome of the remote directory listing (lines 159 to 203) is the parameter
  \<open>remote\<close>: the list built from the API's answer, or the \<open>GAClientError\<close> raised.
  The third component of the result counts the remote listings issued by the call.
  \<open>if cached := self._get_cached(cache_key)\<close> tests the truth value of the cached
  list, which is false for the empty list.
\<close>

record GAClient =
  cache_ttl :: int
  property_cache_ttl :: int
  cache :: "GAProperty list cache"

definition fetch_remote :: "rat \<Rightarrow> (py_error + GAProperty list) \<Rightarrow> GAClient \<Rightarrow> (py_error + GAProperty list) \<times> GAClient \<times> nat" where
  "fetch_remote now remote cl =
     (case remote of
        Inl e \<Rightarrow> (Inl e, cl, 1)
      | Inr props \<Rightarrow>
          (Inr props,
           cl\<lparr>cache := set_cached now (cache_ttl cl) (cache cl) ''properties'' props
                            (Some (property_cache_ttl cl))\<rparr>,
           1))"

definition discover_properties :: "rat \<Rightarrow> (py_error + GAProperty list) \<Rightarrow> GAClient \<Rightarrow> (py_error + GAProperty list) \<times> GAClient \<times> nat" where
  "discover_properties now remote cl =
     (case get_cached now (cache cl) ''properties'' of
        (cached, c') \<Rightarrow>
          (case cached of
             Some props \<Rightarrow>
               if props \<noteq> [] then (Inr props, cl\<lparr>cache := c'\<rparr>, 0)
               else fetch_remote now remote (cl\<lparr>cache := c'\<rparr>)
           | None \<Rightarrow> fetch_remote now remote (cl\<lparr>cache := c'\<rparr>)))"

section \<open>PropertyResolver\<close>

record Config =
  config_fuzzy_threshold :: rat
  config_custom_aliases :: alias_table

text \<open>
  \<open>Config.from_env\<close>, lines 112 to 122: the fuzzy threshold read from
  \<open>GA_FUZZY_THRESHOLD\<close>. The argument is the float parsed from the variable, or
  \<open>None\<close> when the variable is unset or empty.
\<close>

definition threshold_from_env :: "rat option \<Rightarrow> py_error + rat" where
  "threshold_from_env v =
     (case v of
        None \<Rightarrow> Inr (6 / 10)
      | Some x \<Rightarrow> if 0 \<le> x \<and> x \<le> 1 then Inr x else Inl ConfigError)"

record PropertyResolver =
  client :: GAClient
  fuzzy_threshold :: rat
  custom_aliases :: alias_table
  properties :: "GAProperty list option"

text \<open>
  \<open>__init__\<close>, lines 58 to 62: \<open>fuzzy_threshold or config.fuzzy_threshold\<close> and
  \<open>custom_aliases or config.custom_aliases\<close> take the configured value when the
  argument is \<open>None\<close> or false (the number zero, the empty dict).
\<close>

definition init :: "Config \<Rightarrow> GAClient \<Rightarrow> rat option \<Rightarrow> alias_table option \<Rightarrow> PropertyResolver" where
  "init config cl threshold aliases =
     \<lparr>client = cl,
      fuzzy_threshold =
        (case threshold of
           Some t \<Rightarrow> if t \<noteq> 0 then t else config_fuzzy_threshold config
         | None \<Rightarrow> config_fuzzy_threshold config),
      custom_aliases =
        (case aliases of
           Some a \<Rightarrow> if a \<noteq> [] then a else config_custom_aliases config
         | None \<Rightarrow> config_custom_aliases config),
      properties = None\<rparr>"

definition ensure_properties_loaded :: "rat \<Rightarrow> (py_error + GAProperty list) \<Rightarrow> PropertyResolver \<Rightarrow> (py_error + unit) \<times> PropertyResolver \<times> nat" where
  "ensure_properties_loaded now remote r =
     (case properties r of
        None \<Rightarrow>
          (case discover_properties now remote (client r) of
             (Inl e, cl, n) \<Rightarrow> (Inl e, r\<lparr>client := cl\<rparr>, n)
           | (Inr props, cl, n) \<Rightarrow> (Inr (), r\<lparr>client := cl, properties := Some props\<rparr>, n))
      | Some props \<Rightarrow> (Inr (), r, 0))"

definition loaded :: "PropertyResolver \<Rightarrow> GAProperty list" where
  "loaded r = (case properties r of Some props \<Rightarrow> props | None \<Rightarrow> [])"

definition resolve :: "ratio_fn \<Rightarrow> rat \<Rightarrow> (py_error + GAProperty list) \<Rightarrow> PropertyResolver \<Rightarrow> string \<Rightarrow> (py_error + PropertyMatch option) \<times> PropertyResolver \<times> nat" where
  "resolve ratio now remote r query =
     (case ensure_properties_loaded now remote r of
        (Inl e, r', n) \<Rightarrow> (Inl e, r', n)
      | (Inr u, r', n) \<Rightarrow>
          (resolve_in ratio (fuzzy_threshold r') (custom_aliases r') (loaded r') query, r', n))"

definition search :: "ratio_fn \<Rightarrow> rat \<Rightarrow> (py_error + GAProperty list) \<Rightarrow> PropertyResolver \<Rightarrow> string \<Rightarrow> int \<Rightarrow> (py_error + PropertyMatch list) \<times> PropertyResolver \<times> nat" where
  "search ratio now remote r query max_results =
     (case ensure_properties_loaded now remote r of
        (Inl e, r', n) \<Rightarrow> (Inl e, r', n)
      | (Inr u, r', n) \<Rightarrow> (Inr (search_in ratio (loaded r') query max_results), r', n))"

definition list_all :: "rat \<Rightarrow> (py_error + GAProperty list) \<Rightarrow> PropertyResolver \<Rightarrow> (py_error + GAProperty list) \<times> PropertyResolver \<times> nat" where
  "list_all now remote r =
     (case ensure_properties_loaded now remote r of
        (Inl e, r', n) \<Rightarrow> (Inl e, r', n)
      | (Inr u, r', n) \<Rightarrow> (Inr (loaded r'), r', n))"

definition clear_cache :: "PropertyResolver \<Rightarrow> PropertyResolver" where
  "clear_cache r = r\<lparr>properties := None\<rparr>"

section \<open>Predicates for the statements\<close>

text \<open>
  The guards of the source, named: \<open>partial_gate\<close> is the condition of lines 145
  and 147 together, \<open>partial_effective\<close> the score of line 148, \<open>admitted\<close> says that
  a property passes one of the three tests of the fuzzy stage, and \<open>early_miss\<close> that
  stages 1 to 4 find nothing.
\<close>

definition partial_gate :: "string \<Rightarrow> GAProperty \<Rightarrow> bool" where
  "partial_gate query_clean prop =
     (contains_query query_clean prop
      \<and> 3 / 10 < (of_nat (length query_clean) :: rat)
                   / of_nat (max (length (name prop)) (length (display_clean prop))))"

definition partial_effective :: "string \<Rightarrow> GAProperty \<Rightarrow> rat" where
  "partial_effective query_clean prop =
     7 / 10 + (of_nat (length query_clean)
               / of_nat (max (length (name prop)) (length (display_clean prop)))) * (3 / 10)"

definition admitted :: "ratio_fn \<Rightarrow> rat \<Rightarrow> string \<Rightarrow> GAProperty \<Rightarrow> bool" where
  "admitted ratio theta query_clean prop =
     (theta < ratio query_clean (name prop)
      \<or> theta < ratio query_clean (display_clean prop)
      \<or> partial_gate query_clean prop)"

definition candidate_ok :: "ratio_fn \<Rightarrow> rat \<Rightarrow> string \<Rightarrow> GAProperty list \<Rightarrow> best_match \<Rightarrow> bool" where
  "candidate_ok ratio theta query_clean props best =
     (case best of
        None \<Rightarrow> True
      | Some (p, s, t) \<Rightarrow>
          p \<in> set props
          \<and> (t = FuzzyName \<and> s = ratio query_clean (name p) \<and> theta < s
             \<or> t = FuzzyDisplay \<and> s = ratio query_clean (display_clean p) \<and> theta < s
             \<or> t = Partial \<and> partial_gate query_clean p \<and> s = partial_effective query_clean p))"

definition early_miss :: "alias_table \<Rightarrow> GAProperty list \<Rightarrow> string \<Rightarrow> bool" where
  "early_miss aliases props query =
     (find (\<lambda>prop. prop_id prop = query) props = None
      \<and> find (\<lambda>prop. name prop = alnum_only (strip (lower query))) props = None
      \<and> find (\<lambda>prop. lower (display_name prop) = strip (lower query)) props = None
      \<and> alias_stage aliases props (strip (lower query)) = None)"

text \<open>
  \<open>exact_miss\<close>: stages 1 to 3 find nothing. \<open>alias_entry_matches\<close>: the two tests of
  stage 4 on an entry of the alias table (lines 117 and 120).
\<close>

definition exact_miss :: "GAProperty list \<Rightarrow> string \<Rightarrow> bool" where
  "exact_miss props query =
     (find (\<lambda>prop. prop_id prop = query) props = None
      \<and> find (\<lambda>prop. name prop = alnum_only (strip (lower query))) props = None
      \<and> find (\<lambda>prop. lower (display_name prop) = strip (lower query)) props = None)"

definition alias_entry_matches :: "GAProperty list \<Rightarrow> string \<Rightarrow> string \<times> string list \<Rightarrow> bool" where
  "alias_entry_matches props query_lower entry =
     (query_lower \<in> set (map lower (snd entry)) \<and> (\<exists>p\<in>set props. alias_owner (fst entry) p))"

text \<open>
  \<open>search_confidence\<close>: the confidence that the loop body of \<open>search\<close> assigns to a
  property (1 on an exact id or name, \<open>best_score\<close> otherwise); \<open>search_match\<close>: the
  match appended for a property that is included.
\<close>

definition search_confidence :: "ratio_fn \<Rightarrow> string \<Rightarrow> GAProperty \<Rightarrow> rat" where
  "search_confidence ratio query prop =
     (if prop_id prop = query \<or> name prop = alnum_only (strip (lower query)) then 1
      else best_score ratio (alnum_only (strip (lower query))) prop)"

definition search_match :: "ratio_fn \<Rightarrow> string \<Rightarrow> GAProperty \<Rightarrow> PropertyMatch" where
  "search_match ratio query prop =
     \<lparr>property = prop, confidence = search_confidence ratio query prop,
      matched_on = (if search_confidence ratio query prop = 1 then Exact else Fuzzy)\<rparr>"

text \<open>The containment score as the specification writes it, with the divisor capped at 1.\<close>

definition spec_containment_score :: "string \<Rightarrow> GAProperty \<Rightarrow> rat" where
  "spec_containment_score query_clean prop =
     7 / 10 + 3 / 10 * (of_nat (length query_clean)
        / of_nat (max (max (length (name prop)) (length (display_clean prop))) 1))"

section \<open>Concrete inputs\<close>

definition acme_blog :: GAProperty where
  "acme_blog = \<lparr>prop_id = ''111'', name = ''acmeblog'', display_name = ''Acme Blog'',
                 account_id = ''1'', website_url = None\<rparr>"

definition acme_shop :: GAProperty where
  "acme_shop = \<lparr>prop_id = ''222'', name = ''acmeshop'', display_name = ''Acme Shop'',
                 account_id = ''1'', website_url = None\<rparr>"

definition acme_snapshot :: "GAProperty list" where
  "acme_snapshot = [acme_blog, acme_shop]"

definition example_client :: GAClient where
  "example_client = \<lparr>cache_ttl = 300, property_cache_ttl = 3600, cache = fmempty\<rparr>"

definition default_config :: Config where
  "default_config = \<lparr>config_fuzzy_threshold = 6 / 10, config_custom_aliases = []\<rparr>"

definition my_site :: GAProperty where
  "my_site = \<lparr>prop_id = ''123'', name = ''mysite'', display_name = ''My Site'',
               account_id = ''1'', website_url = None\<rparr>"

definition site_aliases :: alias_table where
  "site_aliases = [(''mysite'', [''primary site'', ''main''])]"

definition unnamed_alpha :: GAProperty where
  "unnamed_alpha = \<lparr>prop_id = '''', name = ''alpha'', display_name = ''Alpha'',
                     account_id = ''1'', website_url = None\<rparr>"

definition unnamed_beta :: GAProperty where
  "unnamed_beta = \<lparr>prop_id = '''', name = ''beta'', display_name = ''Beta'',
                    account_id = ''1'', website_url = None\<rparr>"

text \<open>
  A resolver built with the defaults, and its state after a first \<open>resolve\<close> at
  time 0 against a directory that lists \<open>listing\<close>.
\<close>

definition fresh_resolver :: PropertyResolver where
  "fresh_resolver = init default_config example_client None None"

definition after_first_resolve :: "GAProperty list \<Rightarrow> PropertyResolver" where
  "after_first_resolve listing =
     fst (snd (resolve SequenceMatcher_ratio 0 (Inr listing) fresh_resolver ''acme''))"

section \<open>The cache\<close>

lemma get_cached_hit_iff:
  "get_cached now c k = (Some v, c') \<longleftrightarrow>
     (\<exists>e. fmlookup c k = Some e \<and> now < expires_at e \<and> v = data e \<and> c' = c)"
  by (auto simp: get_cached_def is_valid_def split: option.splits)

lemma get_cached_expired:
  "fmlookup c k = Some e \<Longrightarrow> \<not> now < expires_at e \<Longrightarrow> get_cached now c k = (None, fmdrop k c)"
  by (simp add: get_cached_def is_valid_def)

lemma total_entries_drop:
  "fmlookup c k = Some e \<Longrightarrow> Suc (total_entries (fmdrop k c)) = total_entries c"
  using fcard_Suc_fminus1 [of k "fmdom c"] by (auto simp: total_entries_def dest: fmdomI)

lemma set_cached_lookup:
  "ttl \<noteq> 0 \<Longrightarrow>
   fmlookup (set_cached t d c k v (Some ttl)) k = Some \<lparr>data = v, expires_at = t + of_int ttl\<rparr>"
  by (simp add: set_cached_def)

text \<open>
  C8. \<open>_get_cached\<close> returns the stored value exactly when an entry for the key is
  present and the read time is strictly before its expiry, and then leaves the cache
  as it is; on a present but expired entry it deletes the entry and returns absent,
  and the number of entries goes down by one. So after \<open>_set_cached\<close> with a
  positive \<open>ttl\<close> at time \<open>t\<close>, a read before \<open>t + ttl\<close> yields the value, and a
  read at or after \<open>t + ttl\<close> yields absent, removes the entry and lowers the total
  by one.
\<close>

theorem get_cached_lazy_expiry:
  "(get_cached now c k = (Some v, c') \<longleftrightarrow>
      (\<exists>e. fmlookup c k = Some e \<and> now < expires_at e \<and> v = data e \<and> c' = c))
   \<and> (\<forall>e. fmlookup c k = Some e \<and> \<not> now < expires_at e \<longrightarrow>
         get_cached now c k = (None, fmdrop k c)
         \<and> fmlookup (fmdrop k c) k = None
         \<and> Suc (total_entries (fmdrop k c)) = total_entries c)
   \<and> (0 < ttl \<and> t \<le> now \<and> now < t + of_int ttl \<longrightarrow>
         fst (get_cached now (set_cached t d c k v (Some ttl)) k) = Some v)
   \<and> (0 < ttl \<and> t + of_int ttl \<le> now \<longrightarrow>
         fst (get_cached now (set_cached t d c k v (Some ttl)) k) = None
         \<and> fmlookup (snd (get_cached now (set_cached t d c k v (Some ttl)) k)) k = None
         \<and> Suc (total_entries (snd (get_cached now (set_cached t d c k v (Some ttl)) k)))
             = total_entries (set_cached t d c k v (Some ttl)))"
proof (intro conjI allI impI)
  show "get_cached now c k = (Some v, c') \<longleftrightarrow>
      (\<exists>e. fmlookup c k = Some e \<and> now < expires_at e \<and> v = data e \<and> c' = c)"
    by (rule get_cached_hit_iff)
next
  fix e assume "fmlookup c k = Some e \<and> \<not> now < expires_at e"
  then show "get_cached now c k = (None, fmdrop k c)"
    and "Suc (total_entries (fmdrop k c)) = total_entries c"
    by (simp_all add: get_cached_expired total_entries_drop)
  show "fmlookup (fmdrop k c) k = None" by simp
next
  assume a: "0 < ttl \<and> t \<le> now \<and> now < t + of_int ttl"
  then have "fmlookup (set_cached t d c k v (Some ttl)) k
             = Some \<lparr>data = v, expires_at = t + of_int ttl\<rparr>"
    by (simp add: set_cached_lookup)
  with a show "fst (get_cached now (set_cached t d c k v (Some ttl)) k) = Some v"
    by (simp add: get_cached_def is_valid_def)
next
  assume a: "0 < ttl \<and> t + of_int ttl \<le> now"
  let ?c1 = "set_cached t d c k v (Some ttl)"
  from a have l: "fmlookup ?c1 k = Some \<lparr>data = v, expires_at = t + of_int ttl\<rparr>"
    by (simp add: set_cached_lookup)
  with a have g: "get_cached now ?c1 k = (None, fmdrop k ?c1)"
    by (simp add: get_cached_expired)
  from g show "fst (get_cached now ?c1 k) = None" by simp
  from g show "fmlookup (snd (get_cached now ?c1 k)) k = None" by simp
  from g total_entries_drop [OF l]
  show "Suc (total_entries (snd (get_cached now ?c1 k))) = total_entries ?c1" by simp
qed

text \<open>
  The spec's test: \<open>set(k, v, ttl=1)\<close> at time 100 into a cache that holds one other
  entry; a read at 100 yields \<open>v\<close>, and a read at 101 yields absent and leaves one
  entry of the two.
\<close>

theorem get_cached_lazy_expiry_witness:
  "fst (get_cached 100
          (set_cached 100 300 (fmupd ''other'' \<lparr>data = (7::nat), expires_at = 500\<rparr> fmempty)
             ''k'' 5 (Some 1)) ''k'') = Some 5
   \<and> fst (get_cached 101
          (set_cached 100 300 (fmupd ''other'' \<lparr>data = (7::nat), expires_at = 500\<rparr> fmempty)
             ''k'' 5 (Some 1)) ''k'') = None
   \<and> total_entries (set_cached 100 300
          (fmupd ''other'' \<lparr>data = (7::nat), expires_at = 500\<rparr> fmempty) ''k'' 5 (Some 1)) = 2
   \<and> total_entries (snd (get_cached 101
          (set_cached 100 300 (fmupd ''other'' \<lparr>data = (7::nat), expires_at = 500\<rparr> fmempty)
             ''k'' 5 (Some 1)) ''k'')) = 1"
  using get_cached_lazy_expiry [of 100 "fmupd ''other'' \<lparr>data = (7::nat), expires_at = 500\<rparr> fmempty"
          "''k''" 5 "fmempty" 1 100 300]
        get_cached_lazy_expiry [of 101 "fmupd ''other'' \<lparr>data = (7::nat), expires_at = 500\<rparr> fmempty"
          "''k''" 5 "fmempty" 1 100 300]
  by (simp add: set_cached_def total_entries_def fcard_finsert_if)

section \<open>Construction of the resolver\<close>

text \<open>
  C10. A resolver constructed with the explicit threshold \<open>0.0\<close>, which the
  configuration layer accepts, takes the configured threshold (\<open>0.6\<close> by default)
  and not \<open>0.0\<close>; an explicit threshold takes effect exactly when it is not zero.
  The same holds of an explicitly passed empty alias table.
\<close>

theorem init_falsy_arguments_fall_back:
  "threshold_from_env (Some 0) = Inr 0
   \<and> threshold_from_env None = Inr (6 / 10)
   \<and> fuzzy_threshold (init config cl (Some 0) aliases) = config_fuzzy_threshold config
   \<and> (\<forall>t. t \<noteq> 0 \<longrightarrow> fuzzy_threshold (init config cl (Some t) aliases) = t)
   \<and> fuzzy_threshold (init config cl None aliases) = config_fuzzy_threshold config
   \<and> custom_aliases (init config cl threshold (Some [])) = config_custom_aliases config
   \<and> (\<forall>a. a \<noteq> [] \<longrightarrow> custom_aliases (init config cl threshold (Some a)) = a)"
  by (simp add: init_def threshold_from_env_def)

theorem init_falsy_arguments_fall_back_witness:
  "fuzzy_threshold (init default_config example_client (Some 0) (Some [])) = 6 / 10
   \<and> fuzzy_threshold (init default_config example_client (Some (1 / 2)) (Some [])) = 1 / 2
   \<and> custom_aliases (init default_config example_client (Some 0) (Some [])) = []
   \<and> custom_aliases (init default_config example_client (Some 0) (Some [(''mysite'', [''main''])]))
       = [(''mysite'', [''main''])]"
proof -
  note th = init_falsy_arguments_fall_back [of default_config example_client "Some []" "Some 0"]
  have t: "(1 / 2 :: rat) \<noteq> 0" and a: "[(''mysite'', [''main''])] \<noteq> []" by simp_all
  from th have 1: "fuzzy_threshold (init default_config example_client (Some 0) (Some []))
                   = config_fuzzy_threshold default_config" by blast
  from th t have 2: "fuzzy_threshold (init default_config example_client (Some (1 / 2)) (Some []))
                   = 1 / 2" by blast
  from th have 3: "custom_aliases (init default_config example_client (Some 0) (Some []))
                   = config_custom_aliases default_config" by blast
  from th a have 4: "custom_aliases (init default_config example_client (Some 0)
                       (Some [(''mysite'', [''main''])])) = [(''mysite'', [''main''])]" by blast
  from 1 2 3 4 show ?thesis by (simp add: default_config_def)
qed

section \<open>The fuzzy stage\<close>

lemma partial_candidate_error_iff:
  "(\<exists>e. partial_candidate qc p = Inl e) \<longleftrightarrow>
     (contains_query qc p \<and> name p = [] \<and> display_clean p = [])"
  by (auto simp: partial_candidate_def Let_def)

lemma partial_candidate_no_error:
  assumes "name p \<noteq> qc"
  shows "\<exists>c. partial_candidate qc p = Inr c"
proof (cases "partial_candidate qc p")
  case (Inl e)
  then have c: "contains_query qc p \<and> name p = [] \<and> display_clean p = []"
    using partial_candidate_error_iff [of qc p] by blast
  then have "qc = []" by (auto simp: contains_query_def)
  with c assms show ?thesis by simp
next
  case (Inr c)
  then show ?thesis by blast
qed

lemma partial_candidate_value:
  assumes "name p \<noteq> qc"
  shows "partial_candidate qc p
           = Inr (if partial_gate qc p then Some (partial_effective qc p) else None)"
  using partial_candidate_no_error [OF assms]
  by (auto simp: partial_candidate_def partial_gate_def partial_effective_def Let_def
           split: if_splits)

lemma contained_divisor_positive:
  assumes "name p \<noteq> qc" and "contains_query qc p"
  shows "1 \<le> max (length (name p)) (length (display_clean p))"
proof (rule ccontr)
  assume "\<not> 1 \<le> max (length (name p)) (length (display_clean p))"
  then have e: "name p = [] \<and> display_clean p = []"
    by (cases "name p"; cases "display_clean p") auto
  with assms(2) have "qc = []" by (auto simp: contains_query_def)
  with e assms(1) show False by simp
qed

lemma fuzzy_body_no_error:
  assumes "name p \<noteq> qc"
  shows "\<exists>b. fuzzy_body ratio th qc b0 p = Inr b"
  using partial_candidate_no_error [OF assms]
  by (auto simp: fuzzy_body_def Let_def split: option.splits)

lemma fuzzy_stage_no_error:
  "\<forall>p\<in>set ps. name p \<noteq> qc \<Longrightarrow> \<exists>b. fuzzy_stage ratio th qc b0 ps = Inr b"
proof (induction ps arbitrary: b0)
  case Nil
  then show ?case by simp
next
  case (Cons p ps)
  then obtain b where "fuzzy_body ratio th qc b0 p = Inr b"
    using fuzzy_body_no_error [of p qc ratio th b0] by auto
  with Cons show ?case by simp
qed

lemma fuzzy_body_candidate_ok:
  assumes "candidate_ok ratio th qc props b0" and "p \<in> set props"
    and "fuzzy_body ratio th qc b0 p = Inr b"
  shows "candidate_ok ratio th qc props b"
  using assms
  by (auto simp: fuzzy_body_def Let_def candidate_ok_def partial_candidate_def
                 partial_gate_def partial_effective_def
           split: if_splits option.splits sum.splits)

lemma fuzzy_stage_candidate_ok:
  "candidate_ok ratio th qc props b0 \<Longrightarrow> set ps \<subseteq> set props \<Longrightarrow>
   fuzzy_stage ratio th qc b0 ps = Inr b \<Longrightarrow> candidate_ok ratio th qc props b"
proof (induction ps arbitrary: b0)
  case Nil
  then show ?case by simp
next
  case (Cons p ps)
  from Cons.prems(3) obtain b1 where b1: "fuzzy_body ratio th qc b0 p = Inr b1"
    and rest: "fuzzy_stage ratio th qc b1 ps = Inr b"
    by (auto split: sum.splits)
  from Cons.prems(1,2) b1 have "candidate_ok ratio th qc props b1"
    by (auto intro: fuzzy_body_candidate_ok)
  with Cons.IH [of b1] Cons.prems(2) rest show ?case by simp
qed

lemma fuzzy_body_None_iff:
  assumes "fuzzy_body ratio th qc b0 p = Inr b"
  shows "b = None \<longleftrightarrow> b0 = None \<and> \<not> admitted ratio th qc p"
  using assms
  by (auto simp: fuzzy_body_def Let_def admitted_def partial_gate_def improves_def
                 partial_candidate_def
           split: if_splits option.splits sum.splits)

lemma fuzzy_stage_None_iff:
  "fuzzy_stage ratio th qc b0 ps = Inr b \<Longrightarrow>
   b = None \<longleftrightarrow> b0 = None \<and> (\<forall>p\<in>set ps. \<not> admitted ratio th qc p)"
proof (induction ps arbitrary: b0)
  case Nil
  then show ?case by simp
next
  case (Cons p ps)
  from Cons.prems obtain b1 where b1: "fuzzy_body ratio th qc b0 p = Inr b1"
    and rest: "fuzzy_stage ratio th qc b1 ps = Inr b"
    by (auto split: sum.splits)
  from Cons.IH [OF rest] fuzzy_body_None_iff [OF b1] show ?case by auto
qed

section \<open>resolve over a loaded list\<close>

lemma resolve_in_fuzzy:
  assumes "props \<noteq> []" and "early_miss aliases props query"
  shows "resolve_in ratio th aliases props query =
           (case fuzzy_stage ratio th (alnum_only (strip (lower query))) None props of
              Inl e \<Rightarrow> Inl e
            | Inr None \<Rightarrow> Inr None
            | Inr (Some (prop, score, stage)) \<Rightarrow> found prop score stage)"
  using assms by (simp add: resolve_in_def early_miss_def Let_def)

lemma resolve_in_early:
  assumes "props \<noteq> []" and "\<not> early_miss aliases props query"
  shows "\<exists>m. resolve_in ratio th aliases props query = Inr (Some m)
             \<and> confidence m = 1 \<and> matched_on m \<in> {ExactId, ExactName, DisplayName, Alias}"
  using assms by (auto simp: resolve_in_def early_miss_def Let_def found_def split: option.splits)

lemma early_miss_names:
  "early_miss aliases props query \<Longrightarrow> \<forall>p\<in>set props. name p \<noteq> alnum_only (strip (lower query))"
  by (auto simp: early_miss_def find_None_iff)

lemma fuzzy_stage_after_early_miss:
  assumes "early_miss aliases props query"
  obtains b where "fuzzy_stage ratio th (alnum_only (strip (lower query))) None props = Inr b"
  using fuzzy_stage_no_error [OF early_miss_names [OF assms]] by blast

lemma resolve_in_no_error: "\<exists>res. resolve_in ratio th aliases props query = Inr res"
proof (cases "props = []")
  case True
  then show ?thesis by (simp add: resolve_in_def)
next
  case False
  show ?thesis
  proof (cases "early_miss aliases props query")
    case True
    from fuzzy_stage_after_early_miss [OF True]
    obtain b where "fuzzy_stage ratio th (alnum_only (strip (lower query))) None props = Inr b"
      by blast
    then show ?thesis
      by (auto simp: resolve_in_fuzzy [OF False True] found_def split: option.splits)
  next
    case miss: False
    from resolve_in_early [OF False miss] show ?thesis by blast
  qed
qed

lemma resolve_in_fuzzy_None_iff:
  assumes "props \<noteq> []" and "early_miss aliases props query"
  shows "resolve_in ratio th aliases props query = Inr None
           \<longleftrightarrow> (\<forall>p\<in>set props. \<not> admitted ratio th (alnum_only (strip (lower query))) p)"
proof -
  from fuzzy_stage_after_early_miss [OF assms(2)]
  obtain b where b: "fuzzy_stage ratio th (alnum_only (strip (lower query))) None props = Inr b"
    by blast
  from fuzzy_stage_None_iff [OF b] b show ?thesis
    by (auto simp: resolve_in_fuzzy [OF assms] found_def split: option.splits)
qed

lemma resolve_in_fuzzy_Some:
  assumes "props \<noteq> []" and "early_miss aliases props query"
    and "resolve_in ratio th aliases props query = Inr (Some m)"
  shows "candidate_ok ratio th (alnum_only (strip (lower query))) props
           (Some (property m, confidence m, matched_on m))"
proof -
  from fuzzy_stage_after_early_miss [OF assms(2)]
  obtain b where b: "fuzzy_stage ratio th (alnum_only (strip (lower query))) None props = Inr b"
    by blast
  have "candidate_ok ratio th (alnum_only (strip (lower query))) props b"
    by (rule fuzzy_stage_candidate_ok [OF _ _ b]) (simp_all add: candidate_ok_def)
  moreover from assms(3) b have "b = Some (property m, confidence m, matched_on m)"
    by (auto simp: resolve_in_fuzzy [OF assms(1,2)] found_def split: option.splits)
  ultimately show ?thesis by simp
qed

lemma partial_gate_score: "partial_gate qc p \<Longrightarrow> 79 / 100 < partial_effective qc p"
  by (simp add: partial_gate_def partial_effective_def)

section \<open>The claims on the fuzzy stage\<close>

lemma partial_effective_spec:
  "1 \<le> max (length (name p)) (length (display_clean p)) \<Longrightarrow>
   partial_effective qc p = spec_containment_score qc p"
  by (simp add: partial_effective_def spec_containment_score_def max_def)

text \<open>
  C1, as amended. In the fuzzy stage (a non-empty list on which stages 1 to 4 find
  nothing), \<open>resolve\<close> returns absence exactly when no property is admitted, and a
  returned match is either a name or display similarity that strictly exceeds the
  threshold, or a candidate of the partial branch. The partial branch does not
  consult the threshold: its candidate is admitted when the query is contained and
  \<open>len(query_clean) / max(len(name), len(display_clean))\<close> exceeds \<open>0.3\<close>, and its
  score then exceeds \<open>0.79\<close>.
\<close>

theorem fuzzy_stage_acceptance:
  assumes "props \<noteq> []" and "early_miss aliases props query"
  shows "(resolve_in ratio th aliases props query = Inr None
            \<longleftrightarrow> (\<forall>p\<in>set props. \<not> admitted ratio th (alnum_only (strip (lower query))) p))
       \<and> (\<forall>m. resolve_in ratio th aliases props query = Inr (Some m) \<longrightarrow>
             property m \<in> set props
             \<and> (matched_on m = FuzzyName
                  \<and> confidence m = ratio (alnum_only (strip (lower query))) (name (property m))
                  \<and> th < confidence m
                \<or> matched_on m = FuzzyDisplay
                  \<and> confidence m = ratio (alnum_only (strip (lower query))) (display_clean (property m))
                  \<and> th < confidence m
                \<or> matched_on m = Partial
                  \<and> partial_gate (alnum_only (strip (lower query))) (property m)
                  \<and> confidence m = partial_effective (alnum_only (strip (lower query))) (property m)
                  \<and> 79 / 100 < confidence m))"
proof (intro conjI allI impI)
  show "resolve_in ratio th aliases props query = Inr None
            \<longleftrightarrow> (\<forall>p\<in>set props. \<not> admitted ratio th (alnum_only (strip (lower query))) p)"
    by (rule resolve_in_fuzzy_None_iff [OF assms])
next
  fix m assume m: "resolve_in ratio th aliases props query = Inr (Some m)"
  from resolve_in_fuzzy_Some [OF assms m]
  have ok: "candidate_ok ratio th (alnum_only (strip (lower query))) props
              (Some (property m, confidence m, matched_on m))" .
  then show "property m \<in> set props" by (simp add: candidate_ok_def)
  from ok partial_gate_score [of "alnum_only (strip (lower query))" "property m"]
  show "matched_on m = FuzzyName
          \<and> confidence m = ratio (alnum_only (strip (lower query))) (name (property m))
          \<and> th < confidence m
        \<or> matched_on m = FuzzyDisplay
          \<and> confidence m = ratio (alnum_only (strip (lower query))) (display_clean (property m))
          \<and> th < confidence m
        \<or> matched_on m = Partial
          \<and> partial_gate (alnum_only (strip (lower query))) (property m)
          \<and> confidence m = partial_effective (alnum_only (strip (lower query))) (property m)
          \<and> 79 / 100 < confidence m"
    by (auto simp: candidate_ok_def)
qed

lemma acme_query_clean: "alnum_only (strip (lower ''acme'')) = ''acme''"
  by code_simp

theorem fuzzy_stage_acceptance_witness:
  "acme_snapshot \<noteq> [] \<and> early_miss [] acme_snapshot ''acme''
   \<and> resolve_in SequenceMatcher_ratio (6 / 10) [] acme_snapshot ''acme''
       = Inr (Some \<lparr>property = acme_blog, confidence = 17 / 20, matched_on = Partial\<rparr>)
   \<and> partial_gate ''acme'' acme_blog
   \<and> partial_effective ''acme'' acme_blog = 17 / 20"
proof -
  have ne: "acme_snapshot \<noteq> []" by (simp add: acme_snapshot_def)
  have em: "early_miss [] acme_snapshot ''acme''" by code_simp
  have ev: "resolve_in SequenceMatcher_ratio (6 / 10) [] acme_snapshot ''acme''
       = Inr (Some \<lparr>property = acme_blog, confidence = 17 / 20, matched_on = Partial\<rparr>)"
    by code_simp
  from fuzzy_stage_acceptance [OF ne em, of SequenceMatcher_ratio "6 / 10"] ev
  have "partial_gate ''acme'' acme_blog \<and> partial_effective ''acme'' acme_blog = 17 / 20"
    by (auto simp: acme_query_clean)
  with ne em ev show ?thesis by simp
qed

text \<open>
  With the threshold \<open>0.9\<close> the query \<open>acme\<close> resolves to the first record through
  the partial branch at confidence \<open>0.85\<close>, which does not exceed the threshold; both
  similarity ratios are \<open>2/3\<close>.
\<close>

theorem partial_bypasses_threshold:
  "resolve_in SequenceMatcher_ratio (9 / 10) [] acme_snapshot ''acme''
     = Inr (Some \<lparr>property = acme_blog, confidence = 17 / 20, matched_on = Partial\<rparr>)
   \<and> \<not> (9 / 10 < (17 / 20 :: rat))
   \<and> SequenceMatcher_ratio ''acme'' (name acme_blog) = 2 / 3
   \<and> SequenceMatcher_ratio ''acme'' (display_clean acme_blog) = 2 / 3"
  by code_simp

text \<open>
  C2, as amended. In the fuzzy stage, for every property of the list, the partial
  branch yields a candidate exactly when the query is contained in the name or the
  cleaned display name and \<open>len(query_clean) / max(len(name), len(display_clean))\<close>
  exceeds \<open>0.3\<close>; the candidate's score is then
  \<open>0.7 + 0.3 * len(query_clean) / max(len(name), len(display_clean), 1)\<close>. Whenever
  the query is contained the divisor is at least 1, and \<open>resolve\<close> never raises
  \<open>ZeroDivisionError\<close>; a match tagged \<open>partial\<close> carries that score.
\<close>

theorem partial_candidate_score:
  assumes "early_miss aliases props query" and "p \<in> set props"
  shows "partial_candidate (alnum_only (strip (lower query))) p
           = Inr (if partial_gate (alnum_only (strip (lower query))) p
                  then Some (spec_containment_score (alnum_only (strip (lower query))) p)
                  else None)
       \<and> (contains_query (alnum_only (strip (lower query))) p
            \<longrightarrow> 1 \<le> max (length (name p)) (length (display_clean p)))
       \<and> (\<exists>res. resolve_in ratio th aliases props query = Inr res)
       \<and> (\<forall>m. resolve_in ratio th aliases props query = Inr (Some m) \<and> matched_on m = Partial
            \<longrightarrow> partial_gate (alnum_only (strip (lower query))) (property m)
              \<and> confidence m
                  = spec_containment_score (alnum_only (strip (lower query))) (property m))"
proof (intro conjI allI impI)
  let ?qc = "alnum_only (strip (lower query))"
  from early_miss_names [OF assms(1)] have names: "\<forall>p\<in>set props. name p \<noteq> ?qc" .
  with assms(2) have np: "name p \<noteq> ?qc" by blast
  show "contains_query ?qc p \<Longrightarrow> 1 \<le> max (length (name p)) (length (display_clean p))"
    by (rule contained_divisor_positive [OF np])
  show "partial_candidate ?qc p
          = Inr (if partial_gate ?qc p then Some (spec_containment_score ?qc p) else None)"
    using partial_candidate_value [OF np] contained_divisor_positive [OF np]
          partial_effective_spec [of p ?qc]
    by (auto simp: partial_gate_def)
  show "\<exists>res. resolve_in ratio th aliases props query = Inr res"
    by (rule resolve_in_no_error)
  fix m assume m: "resolve_in ratio th aliases props query = Inr (Some m) \<and> matched_on m = Partial"
  from assms(2) have ne: "props \<noteq> []" by auto
  from resolve_in_fuzzy_Some [OF ne assms(1), of ratio th m] m
  have g: "property m \<in> set props" "partial_gate ?qc (property m)"
    and c: "confidence m = partial_effective ?qc (property m)"
    by (auto simp: candidate_ok_def)
  from g show "partial_gate ?qc (property m)" by simp
  from g names have "name (property m) \<noteq> ?qc" by blast
  from contained_divisor_positive [OF this] g(2)
  have "1 \<le> max (length (name (property m))) (length (display_clean (property m)))"
    by (simp add: partial_gate_def)
  with c show "confidence m = spec_containment_score ?qc (property m)"
    by (simp add: partial_effective_spec)
qed

theorem partial_candidate_score_witness:
  "early_miss [] acme_snapshot ''acme'' \<and> acme_shop \<in> set acme_snapshot
   \<and> partial_candidate ''acme'' acme_shop = Inr (Some (17 / 20))
   \<and> spec_containment_score ''acme'' acme_shop = 17 / 20
   \<and> partial_gate ''acme'' acme_shop"
proof -
  have em: "early_miss [] acme_snapshot ''acme''" by code_simp
  have mem: "acme_shop \<in> set acme_snapshot" by (simp add: acme_snapshot_def)
  have g: "partial_gate ''acme'' acme_shop" by code_simp
  have s: "spec_containment_score ''acme'' acme_shop = 17 / 20" by code_simp
  from partial_candidate_score [OF em mem, of SequenceMatcher_ratio "6 / 10"] g s
  have "partial_candidate ''acme'' acme_shop = Inr (Some (17 / 20))"
    by (simp add: acme_query_clean)
  with em mem g s show ?thesis by simp
qed

text \<open>
  The query \<open>a\<close> is contained in \<open>acmeblog\<close>, and the formula of the specification
  gives \<open>0.7375\<close>, above the threshold \<open>0.6\<close>; the source computes no containment
  score (\<open>1/8\<close> does not exceed \<open>0.3\<close>) and \<open>resolve\<close> returns absence.
\<close>

theorem short_query_has_no_partial_candidate:
  "contains_query ''a'' acme_blog
   \<and> partial_candidate ''a'' acme_blog = Inr None
   \<and> spec_containment_score ''a'' acme_blog = 59 / 80
   \<and> (6 / 10 :: rat) < 59 / 80
   \<and> resolve_in SequenceMatcher_ratio (6 / 10) [] acme_snapshot ''a'' = Inr None"
  by code_simp

section \<open>Stage 1: the property id\<close>

lemma find_first_with_id:
  assumes "R \<in> set props"
  obtains p where "find (\<lambda>p. prop_id p = prop_id R) props = Some p" and "prop_id p = prop_id R"
    and "p \<in> set props"
proof (cases "find (\<lambda>p. prop_id p = prop_id R) props")
  case None
  with assms show ?thesis by (auto simp: find_None_iff)
next
  case (Some p)
  then have "prop_id p = prop_id R \<and> p \<in> set props"
    by (auto simp: find_Some_iff)
  with Some that show ?thesis by blast
qed

text \<open>
  C6, as amended. For every record \<open>R\<close> of the loaded list, \<open>resolve(R.id)\<close> returns,
  with confidence 1 and stage \<open>exact_id\<close> and whatever the other stages would find,
  the first record of the list whose id equals \<open>R.id\<close>; this is \<open>R\<close> itself when
  no other record of the list has the same id.
\<close>

theorem resolve_by_id:
  assumes "R \<in> set props"
  shows "\<exists>p. find (\<lambda>p. prop_id p = prop_id R) props = Some p
             \<and> prop_id p = prop_id R
             \<and> resolve_in ratio th aliases props (prop_id R)
                 = Inr (Some \<lparr>property = p, confidence = 1, matched_on = ExactId\<rparr>)
             \<and> ((\<forall>p'. p' \<in> set props \<and> prop_id p' = prop_id R \<longrightarrow> p' = R) \<longrightarrow> p = R)"
proof -
  from find_first_with_id [OF assms]
  obtain p where f: "find (\<lambda>p. prop_id p = prop_id R) props = Some p"
    and i: "prop_id p = prop_id R" and m: "p \<in> set props" by blast
  from assms have "props \<noteq> []" by auto
  with f have "resolve_in ratio th aliases props (prop_id R)
                 = Inr (Some \<lparr>property = p, confidence = 1, matched_on = ExactId\<rparr>)"
    by (simp add: resolve_in_def Let_def found_def)
  with f i m show ?thesis by blast
qed

theorem resolve_by_id_witness:
  "acme_shop \<in> set acme_snapshot
   \<and> resolve_in SequenceMatcher_ratio (6 / 10) [] acme_snapshot (prop_id acme_shop)
       = Inr (Some \<lparr>property = acme_shop, confidence = 1, matched_on = ExactId\<rparr>)"
proof -
  have mem: "acme_shop \<in> set acme_snapshot" by (simp add: acme_snapshot_def)
  have u: "\<forall>p'. p' \<in> set acme_snapshot \<and> prop_id p' = prop_id acme_shop \<longrightarrow> p' = acme_shop"
    by (auto simp: acme_snapshot_def acme_blog_def acme_shop_def)
  from resolve_by_id [OF mem, of SequenceMatcher_ratio "6 / 10" "[]"] u
  have "resolve_in SequenceMatcher_ratio (6 / 10) [] acme_snapshot (prop_id acme_shop)
       = Inr (Some \<lparr>property = acme_shop, confidence = 1, matched_on = ExactId\<rparr>)"
    by auto
  with mem show ?thesis by simp
qed

text \<open>
  Two records with the same id (the empty id that line 180 gives a property whose
  resource name is missing): resolving the id of the second returns the first.
\<close>

theorem shared_id_resolves_to_first:
  "unnamed_beta \<in> set [unnamed_alpha, unnamed_beta]
   \<and> resolve_in SequenceMatcher_ratio (6 / 10) [] [unnamed_alpha, unnamed_beta] (prop_id unnamed_beta)
       = Inr (Some \<lparr>property = unnamed_alpha, confidence = 1, matched_on = ExactId\<rparr>)
   \<and> unnamed_alpha \<noteq> unnamed_beta"
  by code_simp

section \<open>Stage 4: the alias table\<close>

lemma find_Some_mem: "find P xs = Some x \<Longrightarrow> x \<in> set xs \<and> P x"
  by (induction xs) (auto split: if_splits)

lemma alias_stage_find:
  "alias_stage aliases props ql =
     (case find (alias_entry_matches props ql) aliases of
        None \<Rightarrow> None
      | Some e \<Rightarrow> find (alias_owner (fst e)) props)"
proof (induction aliases)
  case Nil
  then show ?case by simp
next
  case (Cons e aliases)
  obtain k as where e: "e = (k, as)" by (cases e)
  show ?case
  proof (cases "alias_entry_matches props ql e")
    case True
    then obtain p where "find (alias_owner k) props = Some p"
      using e by (cases "find (alias_owner k) props") (auto simp: alias_entry_matches_def find_None_iff)
    with True e show ?thesis by (simp add: alias_entry_matches_def)
  next
    case False
    then have "ql \<notin> set (map lower as) \<or> find (alias_owner k) props = None"
      using e by (auto simp: alias_entry_matches_def find_None_iff)
    with False e Cons.IH show ?thesis by auto
  qed
qed

lemma alias_stage_Some_iff:
  "(\<exists>p. alias_stage aliases props ql = Some p) \<longleftrightarrow> (\<exists>e\<in>set aliases. alias_entry_matches props ql e)"
proof
  assume "\<exists>p. alias_stage aliases props ql = Some p"
  then show "\<exists>e\<in>set aliases. alias_entry_matches props ql e"
    by (auto simp: alias_stage_find split: option.splits dest: find_Some_mem)
next
  assume "\<exists>e\<in>set aliases. alias_entry_matches props ql e"
  then obtain e where e: "find (alias_entry_matches props ql) aliases = Some e"
    by (cases "find (alias_entry_matches props ql) aliases") (auto simp: find_None_iff)
  then have "alias_entry_matches props ql e" by (auto dest: find_Some_mem)
  then obtain p where "find (alias_owner (fst e)) props = Some p"
    by (cases "find (alias_owner (fst e)) props") (auto simp: alias_entry_matches_def find_None_iff)
  with e show "\<exists>p. alias_stage aliases props ql = Some p" by (simp add: alias_stage_find)
qed

lemma early_miss_exact:
  "early_miss aliases props query
     \<longleftrightarrow> exact_miss props query \<and> alias_stage aliases props (strip (lower query)) = None"
  by (auto simp: early_miss_def exact_miss_def)

lemma resolve_in_alias:
  assumes "props \<noteq> []" and "exact_miss props query"
    and "alias_stage aliases props (strip (lower query)) = Some p"
  shows "resolve_in ratio th aliases props query
           = Inr (Some \<lparr>property = p, confidence = 1, matched_on = Alias\<rparr>)"
  using assms by (simp add: resolve_in_def exact_miss_def Let_def found_def)

lemma resolve_in_not_exact_miss:
  assumes "props \<noteq> []" and "\<not> exact_miss props query"
  shows "\<exists>m. resolve_in ratio th aliases props query = Inr (Some m)
             \<and> matched_on m \<in> {ExactId, ExactName, DisplayName}"
  using assms by (auto simp: resolve_in_def exact_miss_def Let_def found_def split: option.splits)

lemma resolve_in_Alias_cases:
  assumes "resolve_in ratio th aliases props query = Inr (Some m)" and "matched_on m = Alias"
  shows "props \<noteq> [] \<and> exact_miss props query
         \<and> alias_stage aliases props (strip (lower query)) = Some (property m) \<and> confidence m = 1"
proof -
  from assms(1) have ne: "props \<noteq> []" by (auto simp: resolve_in_def)
  have ex: "exact_miss props query"
  proof (rule ccontr)
    assume "\<not> exact_miss props query"
    from resolve_in_not_exact_miss [OF ne this, of ratio th aliases] assms show False by auto
  qed
  show ?thesis
  proof (cases "alias_stage aliases props (strip (lower query))")
    case None
    with ex have em: "early_miss aliases props query" by (simp add: early_miss_exact)
    from resolve_in_fuzzy_Some [OF ne em assms(1)] assms(2) show ?thesis
      by (simp add: candidate_ok_def)
  next
    case (Some p)
    from resolve_in_alias [OF ne ex Some, of ratio th] assms(1) Some ne ex show ?thesis by auto
  qed
qed

text \<open>
  C4, as amended. \<open>resolve\<close> returns stage \<open>alias\<close> exactly when the list is not
  empty, stages 1 to 3 find nothing, and some entry of the alias table has an alias
  whose lower-cased text equals the lower-cased, stripped query and a record whose
  name equals the entry's key or whose lower-cased display name equals the
  lower-cased key. The confidence is then 1, the entry is the first such entry in
  the table's order and the record the first such record of the list.
\<close>

theorem alias_stage_resolution:
  "((\<exists>m. resolve_in ratio th aliases props query = Inr (Some m) \<and> matched_on m = Alias)
      \<longleftrightarrow> props \<noteq> [] \<and> exact_miss props query
          \<and> (\<exists>e\<in>set aliases. alias_entry_matches props (strip (lower query)) e))
   \<and> (\<forall>m. resolve_in ratio th aliases props query = Inr (Some m) \<and> matched_on m = Alias
         \<longrightarrow> confidence m = 1
           \<and> (\<exists>e. find (alias_entry_matches props (strip (lower query))) aliases = Some e
                 \<and> find (alias_owner (fst e)) props = Some (property m)))"
proof -
  have fwd: "props \<noteq> [] \<and> exact_miss props query
          \<and> (\<exists>e\<in>set aliases. alias_entry_matches props (strip (lower query)) e)"
    if "\<exists>m. resolve_in ratio th aliases props query = Inr (Some m) \<and> matched_on m = Alias"
  proof -
    from that obtain m where m: "resolve_in ratio th aliases props query = Inr (Some m)"
      and a: "matched_on m = Alias" by blast
    from resolve_in_Alias_cases [OF m a]
         alias_stage_Some_iff [of aliases props "strip (lower query)"]
    show ?thesis by blast
  qed
  have bwd: "\<exists>m. resolve_in ratio th aliases props query = Inr (Some m) \<and> matched_on m = Alias"
    if h: "props \<noteq> [] \<and> exact_miss props query
          \<and> (\<exists>e\<in>set aliases. alias_entry_matches props (strip (lower query)) e)"
  proof -
    from h obtain p where "alias_stage aliases props (strip (lower query)) = Some p"
      using alias_stage_Some_iff [of aliases props "strip (lower query)"] by blast
    from resolve_in_alias [OF _ _ this, of ratio th] h show ?thesis by auto
  qed
  have rec: "confidence m = 1
           \<and> (\<exists>e. find (alias_entry_matches props (strip (lower query))) aliases = Some e
                 \<and> find (alias_owner (fst e)) props = Some (property m))"
    if m: "resolve_in ratio th aliases props query = Inr (Some m) \<and> matched_on m = Alias" for m
  proof -
    from m have c: "alias_stage aliases props (strip (lower query)) = Some (property m)"
      and o: "confidence m = 1"
      using resolve_in_Alias_cases [of ratio th aliases props query m] by auto
    from c have "\<exists>e. find (alias_entry_matches props (strip (lower query))) aliases = Some e
                 \<and> find (alias_owner (fst e)) props = Some (property m)"
      by (auto simp: alias_stage_find split: option.splits)
    with o show ?thesis by simp
  qed
  from fwd bwd rec show ?thesis by blast
qed

text \<open>
  The scenario of the specification: \<open>customAliases = {"mysite": ["primary site",
  "main"]}\<close>, a record named \<open>mysite\<close>, and the query \<open>Primary Site\<close>.
\<close>

theorem alias_stage_resolution_witness:
  "[my_site] \<noteq> [] \<and> exact_miss [my_site] ''Primary Site''
   \<and> alias_entry_matches [my_site] (strip (lower ''Primary Site'')) (''mysite'', [''primary site'', ''main''])
   \<and> resolve_in SequenceMatcher_ratio (6 / 10) site_aliases [my_site] ''Primary Site''
       = Inr (Some \<lparr>property = my_site, confidence = 1, matched_on = Alias\<rparr>)"
proof -
  have ex: "exact_miss [my_site] ''Primary Site''" by code_simp
  have en: "alias_entry_matches [my_site] (strip (lower ''Primary Site''))
              (''mysite'', [''primary site'', ''main''])" by code_simp
  have ev: "resolve_in SequenceMatcher_ratio (6 / 10) site_aliases [my_site] ''Primary Site''
       = Inr (Some \<lparr>property = my_site, confidence = 1, matched_on = Alias\<rparr>)" by code_simp
  from alias_stage_resolution [of SequenceMatcher_ratio "6 / 10" site_aliases "[my_site]" "''Primary Site''"]
       ex en
  have "\<exists>m. resolve_in SequenceMatcher_ratio (6 / 10) site_aliases [my_site] ''Primary Site''
              = Inr (Some m) \<and> matched_on m = Alias"
    by (auto simp: site_aliases_def)
  with ex en ev show ?thesis by simp
qed

text \<open>
  The query \<open>primary-site\<close> has the same canonical form as the alias
  \<open>primary site\<close>, and the entry's key names the record; the alias stage compares
  \<open>primary-site\<close> with \<open>primary site\<close>, finds nothing, and the record comes back
  from the fuzzy stage at confidence \<open>12/17\<close>.
\<close>

theorem alias_compared_without_cleaning:
  "alnum_only (strip (lower ''primary-site'')) = alnum_only (strip (lower ''primary site''))
   \<and> alias_owner ''mysite'' my_site
   \<and> resolve_in SequenceMatcher_ratio (6 / 10) site_aliases [my_site] ''primary-site''
       = Inr (Some \<lparr>property = my_site, confidence = 12 / 17, matched_on = FuzzyName\<rparr>)"
  by code_simp

section \<open>Errors of resolve\<close>


lemma fetch_remote_ok: "remote = Inr ps \<Longrightarrow> fst (fetch_remote now remote cl) = Inr ps"
  by (simp add: fetch_remote_def)










section \<open>The property list behind the cache\<close>

lemma resolve_loaded:
  "properties r = Some ps \<Longrightarrow>
   resolve ratio now remote r query
     = (resolve_in ratio (fuzzy_threshold r) (custom_aliases r) ps query, r, 0)"
  by (simp add: resolve_def ensure_properties_loaded_def loaded_def)

lemma discover_properties_cached:
  assumes "fmlookup (cache cl) ''properties'' = Some e" and "now < expires_at e"
    and "data e \<noteq> []"
  shows "discover_properties now remote cl = (Inr (data e), cl, 0)"
  using assms by (simp add: discover_properties_def get_cached_def is_valid_def)

lemma discover_properties_cached_empty:
  assumes "fmlookup (cache cl) ''properties'' = Some e" and "now < expires_at e"
    and "data e = []"
  shows "snd (snd (discover_properties now remote cl)) = 1"
  using assms
  by (simp add: discover_properties_def get_cached_def is_valid_def fetch_remote_def
           split: sum.splits)

lemma clear_cache_frame:
  "client (clear_cache r) = client r \<and> properties (clear_cache r) = None
   \<and> fuzzy_threshold (clear_cache r) = fuzzy_threshold r
   \<and> custom_aliases (clear_cache r) = custom_aliases r"
  by (simp add: clear_cache_def)

text \<open>
  C3, evaluated. A first \<open>resolve\<close> at time 0 against an empty directory issues one
  remote listing and caches the empty list until 3600. A resolver built afterwards on
  the same client issues a remote listing again at time 10, for \<open>resolve\<close>,
  \<open>list_all\<close> and \<open>search\<close> alike: the cached empty list is false in
  \<open>if cached := self._get_cached(cache_key)\<close>. With a non-empty list the second
  resolver issues none.
\<close>

theorem empty_list_is_fetched_again:
  "snd (snd (resolve SequenceMatcher_ratio 0 (Inr []) fresh_resolver ''acme'')) = 1
   \<and> fmlookup (cache (client (after_first_resolve []))) ''properties''
       = Some \<lparr>data = [], expires_at = 3600\<rparr>
   \<and> snd (snd (resolve SequenceMatcher_ratio 10 (Inr [])
                 (init default_config (client (after_first_resolve [])) None None) ''acme'')) = 1
   \<and> snd (snd (list_all 10 (Inr [])
                 (init default_config (client (after_first_resolve [])) None None))) = 1
   \<and> snd (snd (search SequenceMatcher_ratio 10 (Inr [])
                 (init default_config (client (after_first_resolve [])) None None) ''acme'' 5)) = 1
   \<and> snd (snd (resolve SequenceMatcher_ratio 10 (Inr acme_snapshot)
                 (init default_config (client (after_first_resolve acme_snapshot)) None None)
                 ''acme'')) = 0"
  by code_simp

text \<open>
  C9, evaluated. \<open>clear_cache\<close> leaves the client and its cache entry as they are
  and sets the property list to not loaded. The next \<open>resolve\<close>, at time 10 with
  the entry valid until 3600, issues a remote listing when the cached list is empty,
  and none when it is not.
\<close>

theorem clear_cache_then_empty_list_is_fetched_again:
  "client (clear_cache (after_first_resolve [])) = client (after_first_resolve [])
   \<and> properties (clear_cache (after_first_resolve [])) = None
   \<and> fmlookup (cache (client (clear_cache (after_first_resolve [])))) ''properties''
       = Some \<lparr>data = [], expires_at = 3600\<rparr>
   \<and> snd (snd (resolve SequenceMatcher_ratio 10 (Inr [])
                 (clear_cache (after_first_resolve [])) ''acme'')) = 1
   \<and> snd (snd (resolve SequenceMatcher_ratio 10 (Inr acme_snapshot)
                 (clear_cache (after_first_resolve acme_snapshot)) ''acme'')) = 0"
  by code_simp

section \<open>search\<close>

lemma startswith_length: "startswith s a \<Longrightarrow> length a \<le> length s"
  by (induction s a rule: startswith.induct) auto

lemma str_in_length: "str_in a s \<Longrightarrow> length a \<le> length s"
  by (induction s) (auto dest: startswith_length)

lemma contains_query_length:
  "contains_query qc p \<Longrightarrow> length qc \<le> max (max (length (name p)) (length (display_clean p))) 1"
  by (auto simp: contains_query_def dest: str_in_length)

lemma containment_term_le_1:
  assumes "contains_query qc p"
  shows "7 / 10 + (of_nat (length qc)
            / of_nat (max (max (length (name p)) (length (display_clean p))) 1)) * (3 / 10)
         \<le> (1 :: rat)"
proof -
  let ?d = "max (max (length (name p)) (length (display_clean p))) 1"
  have pos: "0 < (of_nat ?d :: rat)" by simp
  from contains_query_length [OF assms] have le: "(of_nat (length qc) :: rat) \<le> of_nat ?d"
    by (simp only: of_nat_le_iff)
  define x where "x = (of_nat (length qc) :: rat) / of_nat ?d"
  from le pos have "x \<le> 1"
    unfolding x_def by (simp add: divide_le_eq)
  then have "7 / 10 + x * (3 / 10) \<le> 1" by simp
  then show ?thesis unfolding x_def .
qed

lemma best_score_le_1:
  assumes "\<forall>a b. ratio a b \<le> 1"
  shows "best_score ratio qc p \<le> 1"
  using assms containment_term_le_1 [of qc p]
  by (simp add: best_score_def Let_def)

lemma search_body_eq:
  assumes "\<forall>a b. ratio a b \<le> 1"
  shows "search_body ratio query (alnum_only (strip (lower query))) p
           = (if 3 / 10 < search_confidence ratio query p
              then Some (search_match ratio query p) else None)"
  using best_score_le_1 [OF assms, of "alnum_only (strip (lower query))" p]
  by (auto simp: search_body_def search_confidence_def search_match_def Let_def)

lemma map_filter_if:
  "List.map_filter (\<lambda>x. if P x then Some (f x) else None) xs = map f (filter P xs)"
  by (induction xs) simp_all

lemma search_matches_eq:
  assumes "\<forall>a b. ratio a b \<le> 1"
  shows "search_matches ratio props query
           = map (search_match ratio query)
               (filter (\<lambda>p. 3 / 10 < search_confidence ratio query p) props)"
proof -
  have "search_body ratio query (alnum_only (strip (lower query)))
          = (\<lambda>p. if 3 / 10 < search_confidence ratio query p
                  then Some (search_match ratio query p) else None)"
    by (rule ext) (rule search_body_eq [OF assms])
  then show ?thesis
    unfolding search_matches_def Let_def by (simp only: map_filter_if)
qed

lemma sort_by_confidence_sorted:
  "sorted_wrt (\<lambda>a b. confidence b \<le> confidence a) (sort_by_confidence ms)"
proof -
  have "sorted (map (\<lambda>m. - confidence m) (sort_key (\<lambda>m. - confidence m) ms))"
    by (rule sorted_sort_key)
  then show ?thesis by (simp add: sorted_map sort_by_confidence_def)
qed

lemma sort_by_confidence_stable:
  "filter (\<lambda>m. confidence m = c) (sort_by_confidence ms) = filter (\<lambda>m. confidence m = c) ms"
  using sort_key_stable [of "\<lambda>m. - confidence m" "- c" ms]
  by (simp add: sort_by_confidence_def)

lemma search_in_eq:
  assumes "0 \<le> max_results"
  shows "search_in ratio props query max_results
           = take (nat max_results) (sort_by_confidence (search_matches ratio props query))"
  using assms
  by (cases "props = []")
     (simp_all add: search_in_def slice_to_def search_matches_def sort_by_confidence_def)

text \<open>
  C7. For a similarity ratio that never exceeds 1 (as difflib's does) and a
  non-negative \<open>max_results\<close>: the matches of \<open>search\<close> are, in the order of the
  list, exactly the records whose confidence strictly exceeds \<open>0.3\<close>, where a
  record whose id or name equals the raw or cleaned query has confidence 1 and every
  other its best score, each tagged \<open>exact\<close> if its confidence is 1 and \<open>fuzzy\<close>
  otherwise; the result is the first \<open>max_results\<close> entries of these matches
  sorted by descending confidence, the sort keeping the matches and, among equal
  confidences, their order in the list.
\<close>

theorem search_ranking:
  assumes "\<forall>a b. ratio a b \<le> 1" and "0 \<le> max_results"
  shows "search_matches ratio props query
           = map (search_match ratio query)
               (filter (\<lambda>p. 3 / 10 < search_confidence ratio query p) props)
       \<and> search_in ratio props query max_results
           = take (nat max_results) (sort_by_confidence (search_matches ratio props query))
       \<and> sorted_wrt (\<lambda>a b. confidence b \<le> confidence a)
           (sort_by_confidence (search_matches ratio props query))
       \<and> (\<forall>c. filter (\<lambda>m. confidence m = c) (sort_by_confidence (search_matches ratio props query))
               = filter (\<lambda>m. confidence m = c) (search_matches ratio props query))
       \<and> set (sort_by_confidence (search_matches ratio props query))
           = set (search_matches ratio props query)
       \<and> length (sort_by_confidence (search_matches ratio props query))
           = length (search_matches ratio props query)"
  using search_matches_eq [OF assms(1)] search_in_eq [OF assms(2)]
        sort_by_confidence_sorted sort_by_confidence_stable
  by (simp add: sort_by_confidence_def)

theorem search_ranking_witness:
  "(\<forall>a b. SequenceMatcher_ratio a b \<le> 1) \<and> (0 :: int) \<le> 5
   \<and> search_in SequenceMatcher_ratio acme_snapshot ''acmeshop'' 5
       = [\<lparr>property = acme_shop, confidence = 1, matched_on = Exact\<rparr>,
          \<lparr>property = acme_blog, confidence = 5 / 8, matched_on = Fuzzy\<rparr>]
   \<and> search_matches SequenceMatcher_ratio acme_snapshot ''acmeshop''
       = [\<lparr>property = acme_blog, confidence = 5 / 8, matched_on = Fuzzy\<rparr>,
          \<lparr>property = acme_shop, confidence = 1, matched_on = Exact\<rparr>]
   \<and> search_in SequenceMatcher_ratio acme_snapshot ''acme'' 1
       = [\<lparr>property = acme_blog, confidence = 17 / 20, matched_on = Fuzzy\<rparr>]"
proof -
  have le: "\<forall>a b. SequenceMatcher_ratio a b \<le> 1" by (simp add: SequenceMatcher_ratio_le_1)
  have n: "(0 :: int) \<le> 5" "(0 :: int) \<le> 1" by simp_all
  have m: "map (search_match SequenceMatcher_ratio ''acmeshop'')
             (filter (\<lambda>p. 3 / 10 < search_confidence SequenceMatcher_ratio ''acmeshop'' p)
                acme_snapshot)
           = [\<lparr>property = acme_blog, confidence = 5 / 8, matched_on = Fuzzy\<rparr>,
              \<lparr>property = acme_shop, confidence = 1, matched_on = Exact\<rparr>]"
    by code_simp
  have s: "take (nat 5) (sort_by_confidence
             [\<lparr>property = acme_blog, confidence = 5 / 8, matched_on = Fuzzy\<rparr>,
              \<lparr>property = acme_shop, confidence = 1, matched_on = Exact\<rparr>])
           = [\<lparr>property = acme_shop, confidence = 1, matched_on = Exact\<rparr>,
              \<lparr>property = acme_blog, confidence = 5 / 8, matched_on = Fuzzy\<rparr>]"
    by code_simp
  have m2: "take (nat 1) (sort_by_confidence
              (map (search_match SequenceMatcher_ratio ''acme'')
                (filter (\<lambda>p. 3 / 10 < search_confidence SequenceMatcher_ratio ''acme'' p)
                   acme_snapshot)))
            = [\<lparr>property = acme_blog, confidence = 17 / 20, matched_on = Fuzzy\<rparr>]"
    by code_simp
  from search_ranking [OF le n(1), of acme_snapshot "''acmeshop''"] m s
  have a: "search_matches SequenceMatcher_ratio acme_snapshot ''acmeshop''
       = [\<lparr>property = acme_blog, confidence = 5 / 8, matched_on = Fuzzy\<rparr>,
          \<lparr>property = acme_shop, confidence = 1, matched_on = Exact\<rparr>]"
    and b: "search_in SequenceMatcher_ratio acme_snapshot ''acmeshop'' 5
       = [\<lparr>property = acme_shop, confidence = 1, matched_on = Exact\<rparr>,
          \<lparr>property = acme_blog, confidence = 5 / 8, matched_on = Fuzzy\<rparr>]"
    by simp_all
  from search_ranking [OF le n(2), of acme_snapshot "''acme''"] m2
  have c: "search_in SequenceMatcher_ratio acme_snapshot ''acme'' 1
       = [\<lparr>property = acme_blog, confidence = 17 / 20, matched_on = Fuzzy\<rparr>]"
    by simp
  from le a b c show ?thesis by simp
qed

end
